theory Spec2Isabelle
  imports Main "HOL-Library.Word"
begin

section \<open>Data of the recorder\<close>

text \<open>
  The program is the single function \<open>main\<close> of
  \<^verbatim>\<open>src/opendlv-video-h264-recorder.cpp\<close>. Strings (\<^verbatim>\<open>std::string\<close>, also when
  they carry raw bytes) are \<open>string\<close>; \<^verbatim>\<open>uint32_t\<close> is \<open>32 word\<close>; the
  \<^verbatim>\<open>int32_t\<close> values that the program only stores and compares are \<open>int\<close>.
\<close>

text \<open>\<^verbatim>\<open>cluon::data::TimeStamp\<close>: seconds and microseconds.\<close>

record TimeStamp =
  seconds :: int
  microseconds :: int

definition TimeStamp0 :: TimeStamp where
  "TimeStamp0 = \<lparr>seconds = 0, microseconds = 0\<rparr>"

text \<open>\<^verbatim>\<open>cluon::data::Envelope\<close>, with the fields the program sets.\<close>

record Envelope =
  dataType :: int
  serializedData :: string
  sent :: TimeStamp
  sampleTimeStamp :: TimeStamp
  senderStamp :: "32 word"

text \<open>A default-constructed envelope (\<^verbatim>\<open>cluon::data::Envelope envelope;\<close>).\<close>

definition Envelope0 :: Envelope where
  "Envelope0 = \<lparr>dataType = 0, serializedData = [], sent = TimeStamp0,
                 sampleTimeStamp = TimeStamp0, senderStamp = 0\<rparr>"

text \<open>\<^verbatim>\<open>opendlv::proxy::ImageReading\<close>.\<close>

record ImageReading =
  fourcc :: string
  width :: "32 word"
  height :: "32 word"
  data :: string

definition ImageReading0 :: ImageReading where
  "ImageReading0 = \<lparr>fourcc = [], width = 0, height = 0, data = []\<rparr>"

text \<open>
  The two headers the program includes (\<^verbatim>\<open>cluon-complete.hpp\<close> and
  \<^verbatim>\<open>opendlv-standard-message-set.hpp\<close>) are not part of the source tree. What the
  program uses of them and cannot be read off the call site is a parameter of the model:
  the message identifier \<^verbatim>\<open>ImageReading::ID()\<close>, the proto encoding that
  \<^verbatim>\<open>cluon::ToProtoVisitor\<close> produces for an image reading, and
  \<^verbatim>\<open>cluon::serializeEnvelope\<close>.
\<close>

record library =
  ImageReading_ID :: int
  encodedData :: "ImageReading \<Rightarrow> string"
  serializeEnvelope :: "Envelope \<Rightarrow> string"

subsection \<open>Command line\<close>

text \<open>
  The values of lines 75 to 82. \<open>NAME_RECFILE\<close> is the name of the recording file.
\<close>

record config =
  NAME :: string
  RECSUFFIX :: string
  WIDTH :: "32 word"
  HEIGHT :: "32 word"
  CID :: "32 word"
  ID :: "32 word"
  NAME_RECFILE :: string
  VERBOSE :: bool

text \<open>
  An exception that nothing catches: \<^verbatim>\<open>std::stoi\<close> throws
  \<^verbatim>\<open>std::invalid_argument\<close> when no digit can be read and
  \<^verbatim>\<open>std::out_of_range\<close> when the value does not fit an \<^verbatim>\<open>int\<close>.
\<close>

datatype exc = InvalidArgument | OutOfRange

definition isspace :: "char \<Rightarrow> bool" where
  "isspace c = (c \<in> set [CHR '' '', CHR 0x09, CHR 0x0A, CHR 0x0B, CHR 0x0C, CHR 0x0D])"

definition isdigit :: "char \<Rightarrow> bool" where
  "isdigit c = (48 \<le> (of_char c :: nat) \<and> (of_char c :: nat) \<le> 57)"

definition digit_val :: "char \<Rightarrow> int" where
  "digit_val c = int (of_char c) - 48"

text \<open>The value of a run of decimal digits, most significant first.\<close>

definition dec_val :: "string \<Rightarrow> int" where
  "dec_val ds = foldl (\<lambda>acc c. 10 * acc + digit_val c) 0 ds"

text \<open>
  \<^verbatim>\<open>std::stoi(str)\<close> in base 10: leading white space is skipped, one sign is
  accepted, the longest run of digits is read and what follows it is ignored.
\<close>

definition stoi :: "string \<Rightarrow> exc + int" where
  "stoi str =
     (let s1 = dropWhile isspace str;
          neg = (case s1 of c # _ \<Rightarrow> c = CHR ''-'' | [] \<Rightarrow> False);
          s2 = (case s1 of c # r \<Rightarrow> if c = CHR ''-'' \<or> c = CHR ''+'' then r else s1 | [] \<Rightarrow> s1);
          ds = takeWhile isdigit s2;
          v = (if neg then - dec_val ds else dec_val ds)
      in if ds = [] then Inl InvalidArgument
         else if v < - (2 ^ 31) \<or> 2 ^ 31 - 1 < v then Inl OutOfRange
         else Inr v)"

text \<open>
  \<^verbatim>\<open>commandlineArguments[key]\<close> on the \<^verbatim>\<open>std::map\<close>: an absent key reads as the
  empty string.
\<close>

definition arg :: "(string \<rightharpoonup> string) \<Rightarrow> string \<Rightarrow> string" where
  "arg commandlineArguments key = (case commandlineArguments key of None \<Rightarrow> [] | Some v \<Rightarrow> v)"

text \<open>\<^verbatim>\<open>commandlineArguments.count(key)\<close>.\<close>

definition count :: "(string \<rightharpoonup> string) \<Rightarrow> string \<Rightarrow> nat" where
  "count commandlineArguments key = (case commandlineArguments key of None \<Rightarrow> 0 | Some _ \<Rightarrow> 1)"

text \<open>
  \<^verbatim>\<open>static_cast<uint32_t>(std::stoi(s))\<close>, and the same guarded by
  \<^verbatim>\<open>s.size() != 0\<close> with 0 as the default (lines 79 and 80).
\<close>

definition stoi_u32 :: "string \<Rightarrow> exc + 32 word" where
  "stoi_u32 s = (case stoi s of Inl e \<Rightarrow> Inl e | Inr v \<Rightarrow> Inr (word_of_int v))"

definition stoi_u32_or_0 :: "string \<Rightarrow> exc + 32 word" where
  "stoi_u32_or_0 s = (if length s \<noteq> 0 then stoi_u32 s else Inr 0)"

text \<open>The broken-down local time that \<^verbatim>\<open>localtime\<close> returns.\<close>

record tm =
  tm_year :: nat
  tm_mon :: nat
  tm_mday :: nat
  tm_hour :: nat
  tm_min :: nat
  tm_sec :: nat

text \<open>Decimal output of an unsigned number, as \<^verbatim>\<open>operator<<\<close> prints it.\<close>

fun show_nat :: "nat \<Rightarrow> string" where
  "show_nat n =
     (if n < 10 then [''0123456789'' ! n]
      else show_nat (n div 10) @ [''0123456789'' ! (n mod 10)])"

definition pad2 :: "nat \<Rightarrow> string" where
  "pad2 n = (if n < 10 then ''0'' else []) @ show_nat n"

text \<open>The lambda \<^verbatim>\<open>getYYYYMMDD_HHMMSS\<close> of lines 52 to 73.\<close>

definition getYYYYMMDD_HHMMSS :: "tm \<Rightarrow> string" where
  "getYYYYMMDD_HHMMSS t =
     (let year = 1900 + tm_year t; month = 1 + tm_mon t; dayOfMonth = tm_mday t;
          hours = tm_hour t; minutes = tm_min t; seconds = tm_sec t
      in show_nat year @ ''-'' @ pad2 month @ ''-'' @ pad2 dayOfMonth @ ''_'' @
         pad2 hours @ pad2 minutes @ pad2 seconds)"

text \<open>
  Lines 75 to 82, in the order of the source; the first exception ends the evaluation.
\<close>

definition parse_arguments :: "(string \<rightharpoonup> string) \<Rightarrow> tm \<Rightarrow> exc + config" where
  "parse_arguments commandlineArguments now =
     (case stoi_u32 (arg commandlineArguments ''width'') of
        Inl e \<Rightarrow> Inl e
      | Inr w \<Rightarrow>
         (case stoi_u32 (arg commandlineArguments ''height'') of
            Inl e \<Rightarrow> Inl e
          | Inr h \<Rightarrow>
             (case stoi_u32_or_0 (arg commandlineArguments ''cid'') of
                Inl e \<Rightarrow> Inl e
              | Inr cid \<Rightarrow>
                 (case stoi_u32_or_0 (arg commandlineArguments ''id'') of
                    Inl e \<Rightarrow> Inl e
                  | Inr ident \<Rightarrow>
                      Inr \<lparr>NAME = arg commandlineArguments ''name'',
                           RECSUFFIX = arg commandlineArguments ''recsuffix'',
                           WIDTH = w, HEIGHT = h, CID = cid, ID = ident,
                           NAME_RECFILE =
                             (if length (arg commandlineArguments ''rec'') \<noteq> 0
                              then arg commandlineArguments ''rec'' @
                                   arg commandlineArguments ''recsuffix''
                              else getYYYYMMDD_HHMMSS now @
                                   arg commandlineArguments ''recsuffix'' @ ''.rec''),
                           VERBOSE = (count commandlineArguments ''verbose'' \<noteq> 0)\<rparr>))))"

section \<open>The recording process\<close>

subsection \<open>State and environment\<close>

text \<open>
  What the capture thread does to the outside, in program order: the calls on the shared
  memory, on the clock, on the encoder and on the recording file and its mutex.
\<close>

datatype action =
  Wait | Now | Lock | GetTimeStamp | CopyData | Unlock
  | Encode | LockRecFile | Serialize | Write | Flush | UnlockRecFile

text \<open>The diagnostic lines on \<^verbatim>\<open>std::cerr\<close> and \<^verbatim>\<open>std::clog\<close>, by their content.\<close>

datatype message =
  Usage | Attached string nat string | FrameSaved | FailedToAttach string

text \<open>
  The model follows the capture thread statement by statement. The callback of the bus
  session runs in a thread of its own; each of its runs holds the file mutex from its
  first to its last statement, and the model takes such a run as one step that happens
  between two steps of the capture thread. How the threads are scheduled, and what the
  mutex does to make this so, is outside the model. A write to the opened recording file
  is taken to succeed.
\<close>

text \<open>
  The state of the process: the bytes written to \<open>recFile\<close>, the variables declared on
  line 91 that the loop assigns (\<open>sampleTimeStamp\<close> is \<open>sampleTimeStampVar\<close> here, since
  the envelope has a field of that name; \<^verbatim>\<open>before\<close> and \<^verbatim>\<open>after\<close> are never used),
  the two diagnostic streams and the actions of the capture thread so far.
\<close>

record state =
  recFile :: string
  sampleTimeStampVar :: TimeStamp
  afterWriting :: TimeStamp
  clog :: "message list"
  cerr :: "message list"
  trace :: "action list"

definition state0 :: state where
  "state0 = \<lparr>recFile = [], sampleTimeStampVar = TimeStamp0, afterWriting = TimeStamp0,
             clog = [], cerr = [], trace = []\<rparr>"

text \<open>
  What the environment answers during one pass through the loop, starting with the test
  of line 105: \<open>valid\<close> and \<open>isTerminated\<close> are the two values that test reads;
  \<open>wait_now\<close>, \<open>sent_now\<close> and \<open>afterWriting_now\<close> are the values of
  \<^verbatim>\<open>cluon::time::now()\<close> on lines 109, 135 and 147; \<open>getTimeStamp\<close> is the pair of
  line 115; \<open>shm_data\<close> is the content of the region, by offset, when line 118 copies it.
  \<open>bus\<close> lists the envelopes that the session of line 96, when there is one, hands to
  its callback since the previous pass (the callback runs in another thread; the model
  places its appends, which the file mutex keeps whole, before the append of this pass).
\<close>

record iter_obs =
  valid :: bool
  isTerminated :: bool
  wait_now :: TimeStamp
  getTimeStamp :: "bool \<times> TimeStamp"
  shm_data :: "nat \<Rightarrow> char"
  sent_now :: TimeStamp
  afterWriting_now :: TimeStamp
  bus :: "Envelope list"

text \<open>
  What the environment decides before the loop: the local time, whether attaching to the
  region succeeded (line 85), the region's name and size, whether the recording file
  could be opened (line 90), and the answers during the loop.
\<close>

record world =
  localtime :: tm
  shm_valid :: bool
  shm_name :: string
  shm_size :: nat
  recFile_good :: bool
  env :: "nat \<Rightarrow> iter_obs"

subsection \<open>The bus callback\<close>

text \<open>
  The lambda of lines 97 to 102: under the file mutex, serialize the envelope, write it
  and flush.
\<close>

definition od4_callback :: "library \<Rightarrow> Envelope \<Rightarrow> state \<Rightarrow> state" where
  "od4_callback L envelope s =
     (let data = serializeEnvelope L envelope
      in s\<lparr>recFile := recFile s @ data\<rparr>)"

text \<open>The session exists only when \<^verbatim>\<open>CID > 0\<close> (line 95).\<close>

definition od4_deliver :: "library \<Rightarrow> config \<Rightarrow> Envelope list \<Rightarrow> state \<Rightarrow> state" where
  "od4_deliver L c envelopes s =
     (if 0 < CID c then fold (od4_callback L) envelopes s else s)"

subsection \<open>One pass through the capture loop\<close>

text \<open>
  Lines 112 to 119: under the region's lock, take the notification time stamp when there
  is one and copy \<^verbatim>\<open>sharedMemory->size()\<close> bytes out of the region.
\<close>

definition snapshot :: "nat \<Rightarrow> iter_obs \<Rightarrow> state \<Rightarrow> string \<times> state" where
  "snapshot sz ob s =
     (let s1 = s\<lparr>trace := trace s @ [Lock]\<rparr>;
          r = getTimeStamp ob;
          s2 = s1\<lparr>sampleTimeStampVar := (if fst r then snd r else sampleTimeStampVar s1),
                  trace := trace s1 @ [GetTimeStamp]\<rparr>;
          data = map (shm_data ob) [0..<sz];
          s3 = s2\<lparr>trace := trace s2 @ [CopyData, Unlock]\<rparr>
      in (data, s3))"

text \<open>Lines 122 to 126.\<close>

definition make_ImageReading :: "config \<Rightarrow> string \<Rightarrow> ImageReading" where
  "make_ImageReading c payload =
     ImageReading0\<lparr>fourcc := ''xyz''\<rparr>\<lparr>width := WIDTH c\<rparr>\<lparr>height := HEIGHT c\<rparr>\<lparr>data := payload\<rparr>"

text \<open>Lines 128 to 138, the setters in the order of the source.\<close>

definition make_envelope ::
    "library \<Rightarrow> config \<Rightarrow> ImageReading \<Rightarrow> TimeStamp \<Rightarrow> TimeStamp \<Rightarrow> Envelope" where
  "make_envelope L c ir now ts =
     Envelope0\<lparr>dataType := ImageReading_ID L\<rparr>\<lparr>serializedData := encodedData L ir\<rparr>
       \<lparr>sent := now\<rparr>\<lparr>sampleTimeStamp := ts\<rparr>\<lparr>senderStamp := ID c\<rparr>"

text \<open>The block of lines 122 to 153, which the test of line 121 guards.\<close>

definition save_frame :: "library \<Rightarrow> config \<Rightarrow> iter_obs \<Rightarrow> string \<Rightarrow> state \<Rightarrow> state" where
  "save_frame L c ob payload s =
     (let ir = make_ImageReading c payload;
          envelope = make_envelope L c ir (sent_now ob) (sampleTimeStampVar s);
          s1 = s\<lparr>trace := trace s @ [Encode, Now, LockRecFile]\<rparr>;
          serialized = serializeEnvelope L envelope;
          s2 = s1\<lparr>recFile := recFile s1 @ serialized,
                  trace := trace s1 @ [Serialize, Write, Flush]\<rparr>;
          s3 = (if VERBOSE c
                then s2\<lparr>afterWriting := afterWriting_now ob, trace := trace s2 @ [Now]\<rparr>
                else s2);
          s4 = s3\<lparr>trace := trace s3 @ [UnlockRecFile]\<rparr>
      in if VERBOSE c then s4\<lparr>clog := clog s4 @ [FrameSaved]\<rparr> else s4)"

text \<open>The body of the loop, lines 106 to 154. \<open>totalSize\<close> is the local of line 111.\<close>

definition capture_iteration ::
    "library \<Rightarrow> config \<Rightarrow> nat \<Rightarrow> iter_obs \<Rightarrow> state \<Rightarrow> state" where
  "capture_iteration L c sz ob s =
     (let s1 = s\<lparr>trace := trace s @ [Wait]\<rparr>;
          s2 = s1\<lparr>sampleTimeStampVar := wait_now ob, trace := trace s1 @ [Now]\<rparr>;
          totalSize = (0 :: int);
          (payload, s3) = snapshot sz ob s2
      in if 0 < totalSize then save_frame L c ob payload s3 else s3)"

subsection \<open>The loop and the program\<close>

text \<open>
  The test of line 105. \<^verbatim>\<open>sharedMemory\<close> holds the result of \<^verbatim>\<open>new\<close> and is never
  null, so the test is on \<open>valid\<close> and on the termination flag.
\<close>

definition continues :: "iter_obs \<Rightarrow> bool" where
  "continues ob = (valid ob \<and> \<not> isTerminated ob)"

text \<open>
  The loop of lines 105 to 155, from pass \<open>i\<close> on. It ends when the region is not valid
  any more or the termination flag is set; when neither ever happens it does not return,
  which is the value \<open>None\<close>.
\<close>

partial_function (option) capture_loop ::
    "library \<Rightarrow> config \<Rightarrow> nat \<Rightarrow> (nat \<Rightarrow> iter_obs) \<Rightarrow> nat \<Rightarrow> state \<Rightarrow> state option" where
  "capture_loop L c sz obs i s =
     (if continues (obs i)
      then capture_loop L c sz obs (Suc i)
             (capture_iteration L c sz (obs i) (od4_deliver L c (bus (obs i)) s))
      else Some (od4_deliver L c (bus (obs i)) s))"

text \<open>
  \<open>main\<close>: the exit status (or the exception that ended the process) and the final
  state; \<open>None\<close> when the loop never ends.
\<close>

definition main :: "library \<Rightarrow> (string \<rightharpoonup> string) \<Rightarrow> world \<Rightarrow> ((exc + int) \<times> state) option" where
  "main L commandlineArguments W =
     (if 0 = count commandlineArguments ''name'' \<or>
         0 = count commandlineArguments ''width'' \<or>
         0 = count commandlineArguments ''height''
      then Some (Inr 1, state0\<lparr>cerr := [Usage]\<rparr>)
      else case parse_arguments commandlineArguments (localtime W) of
        Inl e \<Rightarrow> Some (Inl e, state0)
      | Inr c \<Rightarrow>
          if shm_valid W
          then (let s = state0\<lparr>clog := [Attached (shm_name W) (shm_size W) (NAME_RECFILE c)]\<rparr>
                in if recFile_good W
                   then (case capture_loop L c (shm_size W) (env W) 0 s of
                           None \<Rightarrow> None
                         | Some s' \<Rightarrow> Some (Inr 0, s'))
                   else Some (Inr 0, s))
          else Some (Inr 1, state0\<lparr>cerr := [FailedToAttach (NAME c)]\<rparr>))"

section \<open>Notions used to state the properties\<close>

text \<open>
  The state after \<open>n\<close> complete passes through the loop, starting with pass \<open>i\<close>: each
  pass first takes the appends of the bus callback, then runs the body of the loop.
\<close>

fun passes ::
    "library \<Rightarrow> config \<Rightarrow> nat \<Rightarrow> (nat \<Rightarrow> iter_obs) \<Rightarrow> nat \<Rightarrow> nat \<Rightarrow> state \<Rightarrow> state" where
  "passes L c sz obs i 0 s = s"
| "passes L c sz obs i (Suc n) s =
     passes L c sz obs (Suc i) n
       (capture_iteration L c sz (obs i) (od4_deliver L c (bus (obs i)) s))"

text \<open>The exit status of a run and the bytes of its recording file.\<close>

definition exit_status :: "((exc + int) \<times> state) option \<Rightarrow> (exc + int) option" where
  "exit_status r = map_option fst r"

definition recorded :: "((exc + int) \<times> state) option \<Rightarrow> string option" where
  "recorded r = map_option (\<lambda>p. recFile (snd p)) r"

definition actions :: "((exc + int) \<times> state) option \<Rightarrow> action list option" where
  "actions r = map_option (\<lambda>p. trace (snd p)) r"

text \<open>
  \<open>lock_free_io held as\<close>: along the actions \<open>as\<close>, started with the region lock held or
  not, no encoding and no access to the recording file happens while the lock is held.
\<close>

fun lock_free_io :: "bool \<Rightarrow> action list \<Rightarrow> bool" where
  "lock_free_io held [] = True"
| "lock_free_io held (Lock # as) = lock_free_io True as"
| "lock_free_io held (Unlock # as) = lock_free_io False as"
| "lock_free_io held (Encode # as) = (\<not> held \<and> lock_free_io held as)"
| "lock_free_io held (LockRecFile # as) = (\<not> held \<and> lock_free_io held as)"
| "lock_free_io held (Serialize # as) = (\<not> held \<and> lock_free_io held as)"
| "lock_free_io held (Write # as) = (\<not> held \<and> lock_free_io held as)"
| "lock_free_io held (Flush # as) = (\<not> held \<and> lock_free_io held as)"
| "lock_free_io held (UnlockRecFile # as) = (\<not> held \<and> lock_free_io held as)"
| "lock_free_io held (a # as) = lock_free_io held as"

text \<open>Every copy of the region is directly followed by the release of its lock.\<close>

fun released_after_copy :: "action list \<Rightarrow> bool" where
  "released_after_copy [] = True"
| "released_after_copy [a] = (a \<noteq> CopyData)"
| "released_after_copy (a # b # as) =
     ((if a = CopyData then b = Unlock else True) \<and> released_after_copy (b # as))"


subsection \<open>Concrete inputs\<close>

text \<open>
  A stand-in for the library: the identifier of the image reading message, an encoding
  that concatenates the format tag and the bytes, and a serialization that puts the
  length of the payload before it.
\<close>

definition toy_encode :: "ImageReading \<Rightarrow> string" where
  "toy_encode ir = fourcc ir @ data ir"

definition toy_serialize :: "Envelope \<Rightarrow> string" where
  "toy_serialize e = show_nat (length (serializedData e)) @ '':'' @ serializedData e"

definition lib0 :: library where
  "lib0 = \<lparr>ImageReading_ID = 1055, encodedData = toy_encode, serializeEnvelope = toy_serialize\<rparr>"

text \<open>\<^verbatim>\<open>--name=data --width=640 --height=480\<close>, the example of the usage text.\<close>

definition args0 :: "string \<rightharpoonup> string" where
  "args0 = [''name'' \<mapsto> ''data'', ''width'' \<mapsto> ''640'', ''height'' \<mapsto> ''480'']"

text \<open>The same without \<^verbatim>\<open>--height\<close>.\<close>

definition args_no_height :: "string \<rightharpoonup> string" where
  "args_no_height = [''name'' \<mapsto> ''data'', ''width'' \<mapsto> ''640'']"

definition config0 :: config where
  "config0 = \<lparr>NAME = ''data'', RECSUFFIX = [], WIDTH = 640, HEIGHT = 480, CID = 0, ID = 0,
              NAME_RECFILE = ''2019-01-07_090530.rec'', VERBOSE = False\<rparr>"

definition tm0 :: tm where
  "tm0 = \<lparr>tm_year = 119, tm_mon = 0, tm_mday = 7, tm_hour = 9, tm_min = 5, tm_sec = 30\<rparr>"

definition byte_a :: "nat \<Rightarrow> char" where
  "byte_a k = CHR ''a''"

text \<open>A frame that arrives 10 ms after second 100, with a notification time stamp.\<close>

definition frame :: "nat \<Rightarrow> iter_obs" where
  "frame i =
     \<lparr>valid = True, isTerminated = False,
      wait_now = \<lparr>seconds = 100, microseconds = 10000 * int i + 20\<rparr>,
      getTimeStamp = (True, \<lparr>seconds = 100, microseconds = 10000 * int i\<rparr>),
      shm_data = byte_a,
      sent_now = \<lparr>seconds = 100, microseconds = 10000 * int i + 30\<rparr>,
      afterWriting_now = \<lparr>seconds = 100, microseconds = 10000 * int i + 40\<rparr>,
      bus = []\<rparr>"

text \<open>The termination flag is found set at the test of line 105.\<close>

definition stop :: iter_obs where
  "stop = (frame 0)\<lparr>isTerminated := True\<rparr>"

text \<open>Three frames, then the termination flag.\<close>

definition env3 :: "nat \<Rightarrow> iter_obs" where
  "env3 i = (if i < 3 then frame i else stop)"

definition world3 :: world where
  "world3 = \<lparr>localtime = tm0, shm_valid = True, shm_name = ''data'', shm_size = 4,
             recFile_good = True, env = env3\<rparr>"

text \<open>The same, but the recording file cannot be opened; and the region cannot be attached.\<close>

definition world_no_file :: world where
  "world_no_file = world3\<lparr>recFile_good := False\<rparr>"

definition world_no_shm :: world where
  "world_no_shm = world3\<lparr>shm_valid := False\<rparr>"

section \<open>Properties\<close>

subsection \<open>The loop returns exactly when its test fails at some pass\<close>

lemma capture_loop_stop:
  "\<not> continues (obs i) \<Longrightarrow>
   capture_loop L c sz obs i s = Some (od4_deliver L c (bus (obs i)) s)"
  by (subst capture_loop.simps) simp

lemma capture_loop_step:
  "continues (obs i) \<Longrightarrow>
   capture_loop L c sz obs i s =
     capture_loop L c sz obs (Suc i)
       (capture_iteration L c sz (obs i) (od4_deliver L c (bus (obs i)) s))"
  by (subst capture_loop.simps) simp

lemma capture_loop_returns:
  "(\<And>j. j < n \<Longrightarrow> continues (obs (i + j))) \<Longrightarrow> \<not> continues (obs (i + n)) \<Longrightarrow>
   capture_loop L c sz obs i s =
     Some (od4_deliver L c (bus (obs (i + n))) (passes L c sz obs i n s))"
proof (induction n arbitrary: i s)
  case 0
  then show ?case by (simp add: capture_loop_stop)
next
  case (Suc n)
  have c0: "continues (obs i)" using Suc.prems(1) [of 0] by simp
  have step: "\<And>j. j < n \<Longrightarrow> continues (obs (Suc i + j))"
    using Suc.prems(1) by (metis Suc_less_eq add_Suc_shift)
  have stop: "\<not> continues (obs (Suc i + n))" using Suc.prems(2) by simp
  show ?case
    by (simp add: capture_loop_step [where obs = obs and i = i, OF c0] Suc.IH [OF step stop])
qed

lemma capture_loop_Some_stops:
  assumes "capture_loop L c sz obs i s = Some s'"
  shows "\<exists>n. \<not> continues (obs (i + n))"
  using assms
proof (induct rule: capture_loop.raw_induct [rotated 1, consumes 1])
  case (1 f L c sz obs i s s')
  show ?case
  proof (cases "continues (obs i)")
    case True
    with 1(2) have "f L c sz obs (Suc i)
        (capture_iteration L c sz (obs i) (od4_deliver L c (bus (obs i)) s)) = Some s'"
      by simp
    from 1(1) [OF this] obtain n where "\<not> continues (obs (Suc i + n))" by blast
    then have "\<not> continues (obs (i + Suc n))" by simp
    then show ?thesis by blast
  next
    case False
    then have "\<not> continues (obs (i + 0))" by simp
    then show ?thesis by blast
  qed
qed

text \<open>The first pass from \<open>i\<close> on at which the test fails, when there is one.\<close>

lemma first_stop:
  fixes obs :: "nat \<Rightarrow> iter_obs"
  assumes "\<not> continues (obs (i + m))"
  shows "\<exists>n. (\<forall>j<n. continues (obs (i + j))) \<and> \<not> continues (obs (i + n))"
  using assms exists_least_iff [of "\<lambda>k. \<not> continues (obs (i + k))"] by auto

lemma capture_loop_cases:
  obtains (runs_forever) "\<And>c s. capture_loop L c sz obs i s = None"
  | (returns) n where
      "\<And>c s. capture_loop L c sz obs i s =
          Some (od4_deliver L c (bus (obs (i + n))) (passes L c sz obs i n s))"
proof (cases "\<exists>m. \<not> continues (obs (i + m))")
  case True
  then obtain m where "\<not> continues (obs (i + m))" by blast
  then obtain n where "\<And>j. j < n \<Longrightarrow> continues (obs (i + j))" and "\<not> continues (obs (i + n))"
    using first_stop [of obs i m] by blast
  then have "\<And>c s. capture_loop L c sz obs i s =
      Some (od4_deliver L c (bus (obs (i + n))) (passes L c sz obs i n s))"
    by (rule capture_loop_returns)
  then show thesis by (rule returns)
next
  case False
  have "\<And>c s. capture_loop L c sz obs i s = None"
  proof -
    fix c s
    show "capture_loop L c sz obs i s = None"
      using capture_loop_Some_stops [of L c sz obs i s] False
      by (cases "capture_loop L c sz obs i s") auto
  qed
  then show thesis by (rule runs_forever)
qed

subsection \<open>What one pass does\<close>

lemma od4_callback_fields [simp]:
  "recFile (od4_callback L e s) = recFile s @ serializeEnvelope L e"
  "trace (od4_callback L e s) = trace s"
  "sampleTimeStampVar (od4_callback L e s) = sampleTimeStampVar s"
  by (simp_all add: od4_callback_def)

lemma fold_od4_callback_fields:
  "recFile (fold (od4_callback L) es s) = recFile s @ concat (map (serializeEnvelope L) es)"
  "trace (fold (od4_callback L) es s) = trace s"
  "sampleTimeStampVar (fold (od4_callback L) es s) = sampleTimeStampVar s"
  by (induction es arbitrary: s) simp_all

lemma od4_deliver_fields:
  "recFile (od4_deliver L c es s) =
     recFile s @ (if 0 < CID c then concat (map (serializeEnvelope L) es) else [])"
  "trace (od4_deliver L c es s) = trace s"
  "sampleTimeStampVar (od4_deliver L c es s) = sampleTimeStampVar s"
  by (simp_all add: od4_deliver_def fold_od4_callback_fields)

lemma snapshot_fields:
  "fst (snapshot sz ob s) = map (shm_data ob) [0..<sz]"
  "recFile (snd (snapshot sz ob s)) = recFile s"
  "trace (snd (snapshot sz ob s)) = trace s @ [Lock, GetTimeStamp, CopyData, Unlock]"
  "sampleTimeStampVar (snd (snapshot sz ob s)) =
     (if fst (getTimeStamp ob) then snd (getTimeStamp ob) else sampleTimeStampVar s)"
  by (simp_all add: snapshot_def Let_def)

lemma capture_iteration_eq:
  "capture_iteration L c sz ob s =
     snd (snapshot sz ob (s\<lparr>trace := trace s @ [Wait]\<rparr>
            \<lparr>sampleTimeStampVar := wait_now ob, trace := trace s @ [Wait, Now]\<rparr>))"
  by (simp add: capture_iteration_def Let_def split: prod.splits)

lemma capture_iteration_fields:
  "recFile (capture_iteration L c sz ob s) = recFile s"
  "trace (capture_iteration L c sz ob s) =
     trace s @ [Wait, Now, Lock, GetTimeStamp, CopyData, Unlock]"
  "sampleTimeStampVar (capture_iteration L c sz ob s) =
     (if fst (getTimeStamp ob) then snd (getTimeStamp ob) else wait_now ob)"
  by (simp_all add: capture_iteration_eq snapshot_fields)

lemma save_frame_fields:
  "recFile (save_frame L c ob payload s) =
     recFile s @ serializeEnvelope L
       (make_envelope L c (make_ImageReading c payload) (sent_now ob) (sampleTimeStampVar s))"
  "trace (save_frame L c ob payload s) =
     trace s @ [Encode, Now, LockRecFile, Serialize, Write, Flush] @
       (if VERBOSE c then [Now] else []) @ [UnlockRecFile]"
  "sampleTimeStampVar (save_frame L c ob payload s) = sampleTimeStampVar s"
  by (simp_all add: save_frame_def Let_def)


lemma passes_fields:
  "recFile (passes L c sz obs i n s) =
     recFile s @ (if 0 < CID c
                  then concat (map (serializeEnvelope L) (concat (map (\<lambda>k. bus (obs k)) [i..<i + n])))
                  else [])"
  "trace (passes L c sz obs i n s) =
     trace s @ concat (replicate n [Wait, Now, Lock, GetTimeStamp, CopyData, Unlock])"
proof (induction n arbitrary: i s)
  case 0
  {
    case 1
    show ?case by simp
  next
    case 2
    show ?case by simp
  }
next
  case (Suc n)
  {
    case 1
    have "[i..<i + Suc n] = i # [Suc i..<Suc i + n]" by (simp add: upt_rec)
    then show ?case
      by (simp add: Suc.IH(1) capture_iteration_fields od4_deliver_fields)
  next
    case 2
    show ?case
      by (simp add: Suc.IH(2) capture_iteration_fields od4_deliver_fields)
  }
qed

subsection \<open>Concrete runs\<close>

lemma count_args0:
  "count args0 ''name'' = 1" "count args0 ''width'' = 1" "count args0 ''height'' = 1"
  by (simp_all add: args0_def count_def)

lemma parse_args0: "parse_arguments args0 tm0 = Inr config0"
  by (simp add: parse_arguments_def args0_def arg_def count_def stoi_u32_def stoi_u32_or_0_def
      stoi_def isspace_def isdigit_def dec_val_def digit_val_def getYYYYMMDD_HHMMSS_def
      tm0_def pad2_def config0_def)

lemma continues_env3: "continues (env3 i) = (i < 3)"
  by (simp add: env3_def continues_def frame_def stop_def)

lemma capture_loop_env3:
  "capture_loop L c sz env3 0 s =
     Some (od4_deliver L c (bus (env3 3)) (passes L c sz env3 0 3 s))"
  using capture_loop_returns [of 3 env3 0 L c sz s] by (simp add: continues_env3)

lemma main_args0_world3:
  "main lib0 args0 world3 =
     Some (Inr 0, od4_deliver lib0 config0 (bus (env3 3))
       (passes lib0 config0 4 env3 0 3
          (state0\<lparr>clog := [Attached ''data'' 4 ''2019-01-07_090530.rec'']\<rparr>)))"
  by (simp add: main_def count_args0 world3_def parse_args0 capture_loop_env3)
    (simp add: config0_def)

subsection \<open>The paths through \<open>main\<close>\<close>

lemma count_args_no_height: "count args_no_height ''height'' = 0"
  by (simp add: args_no_height_def count_def)

lemma main_missing_argument:
  "0 = count a ''name'' \<or> 0 = count a ''width'' \<or> 0 = count a ''height'' \<Longrightarrow>
   main L a W = Some (Inr 1, state0\<lparr>cerr := [Usage]\<rparr>)"
  by (simp add: main_def)

lemma main_not_attached:
  "0 < count a ''name'' \<Longrightarrow> 0 < count a ''width'' \<Longrightarrow> 0 < count a ''height'' \<Longrightarrow>
   parse_arguments a (localtime W) = Inr c \<Longrightarrow> \<not> shm_valid W \<Longrightarrow>
   main L a W = Some (Inr 1, state0\<lparr>cerr := [FailedToAttach (NAME c)]\<rparr>)"
  by (simp add: main_def)

lemma main_no_file:
  "0 < count a ''name'' \<Longrightarrow> 0 < count a ''width'' \<Longrightarrow> 0 < count a ''height'' \<Longrightarrow>
   parse_arguments a (localtime W) = Inr c \<Longrightarrow> shm_valid W \<Longrightarrow> \<not> recFile_good W \<Longrightarrow>
   main L a W =
     Some (Inr 0, state0\<lparr>clog := [Attached (shm_name W) (shm_size W) (NAME_RECFILE c)]\<rparr>)"
  by (simp add: main_def)

lemma main_recording:
  "0 < count a ''name'' \<Longrightarrow> 0 < count a ''width'' \<Longrightarrow> 0 < count a ''height'' \<Longrightarrow>
   parse_arguments a (localtime W) = Inr c \<Longrightarrow> shm_valid W \<Longrightarrow> recFile_good W \<Longrightarrow>
   main L a W =
     (case capture_loop L c (shm_size W) (env W) 0
             (state0\<lparr>clog := [Attached (shm_name W) (shm_size W) (NAME_RECFILE c)]\<rparr>) of
        None \<Rightarrow> None | Some s' \<Rightarrow> Some (Inr 0, s'))"
  by (simp add: main_def)

lemma capture_loop_ends:
  fixes obs :: "nat \<Rightarrow> iter_obs"
  assumes "\<not> continues (obs n)"
  shows "\<exists>s'. capture_loop L c sz obs 0 s = Some s'"
proof -
  from assms have "\<not> continues (obs (0 + n))" by simp
  with first_stop [of obs 0 n] obtain k
    where "\<And>j. j < k \<Longrightarrow> continues (obs (0 + j))" and "\<not> continues (obs (0 + k))"
    by blast
  then have "capture_loop L c sz obs 0 s =
      Some (od4_deliver L c (bus (obs (0 + k))) (passes L c sz obs 0 k s))"
    by (rule capture_loop_returns)
  then show ?thesis by blast
qed

subsection \<open>The verbose flag\<close>

lemma arg_verbose:
  "key \<noteq> ''verbose'' \<Longrightarrow> arg (a(''verbose'' := v)) key = arg a key"
  "key \<noteq> ''verbose'' \<Longrightarrow> count (a(''verbose'' := v)) key = count a key"
  by (simp_all add: arg_def count_def)

lemma parse_arguments_verbose:
  "parse_arguments (a(''verbose'' := v)) t =
     (case parse_arguments a t of
        Inl e \<Rightarrow> Inl e
      | Inr c \<Rightarrow> Inr (c\<lparr>VERBOSE := (v \<noteq> None)\<rparr>))"
  by (cases v) (simp_all add: parse_arguments_def arg_verbose count_def split: sum.splits)

lemma save_frame_verbose:
  "recFile (save_frame L (c\<lparr>VERBOSE := b\<rparr>) ob payload s) = recFile (save_frame L c ob payload s)"
  by (simp add: save_frame_fields make_envelope_def make_ImageReading_def)

lemma capture_loop_verbose:
  "map_option recFile (capture_loop L (c\<lparr>VERBOSE := b\<rparr>) sz obs i s) =
   map_option recFile (capture_loop L c sz obs i s')" if "recFile s = recFile s'"
proof (cases rule: capture_loop_cases [of L sz obs i])
  case runs_forever
  then show ?thesis by simp
next
  case (returns n)
  then show ?thesis
    using that by (simp add: od4_deliver_fields passes_fields)
qed

lemma recorded_after_loop:
  "map_option (\<lambda>p. recFile (snd p)) (case x of None \<Rightarrow> None | Some s' \<Rightarrow> Some (r, s')) =
   map_option recFile x"
  by (cases x) simp_all

section \<open>The claims\<close>

text \<open>
  C1. Three frames are delivered, no bus channel is configured and no recording file is
  named; the claim expects three envelopes in the recording file. The run below is that
  scenario: the region is attached, the file is opened, the loop makes three passes and
  ends on the termination flag with exit status 0, and the recording file is empty.
\<close>

theorem three_frames_record_nothing:
  "exit_status (main lib0 args0 world3) = Some (Inr 0) \<and>
   recorded (main lib0 args0 world3) = Some [] \<and>
   actions (main lib0 args0 world3) =
     Some (concat (replicate 3 [Wait, Now, Lock, GetTimeStamp, CopyData, Unlock]))"
  by (simp add: main_args0_world3 exit_status_def recorded_def actions_def
      od4_deliver_fields passes_fields state0_def config0_def)

text \<open>
  C2. In every pass the block that the test \<^verbatim>\<open>0 < totalSize\<close> guards is skipped: the
  pass is the wait, the clock reading and the snapshot, it performs no encoding and no
  write, and it leaves the recording file as it was.
\<close>

theorem capture_iteration_appends_nothing:
  "recFile (capture_iteration L c sz ob s) = recFile s \<and>
   length (recFile (capture_iteration L c sz ob s)) = length (recFile s) \<and>
   trace (capture_iteration L c sz ob s) =
     trace s @ [Wait, Now, Lock, GetTimeStamp, CopyData, Unlock]"
  by (simp add: capture_iteration_fields)

text \<open>
  C3, as stated: the exit status is non-zero exactly when the recording file could not be
  opened or the region could not be attached. Two runs refute it. With the region attached
  and the recording file not opened, the status is 0; with \<^verbatim>\<open>--height\<close> missing, nothing
  is attached or opened and the status is 1.
\<close>

theorem exit_status_counterexample:
  "\<not> (exit_status (main lib0 args0 world_no_file) \<noteq> Some (Inr 0) \<longleftrightarrow>
        \<not> recFile_good world_no_file \<or> \<not> shm_valid world_no_file) \<and>
   \<not> (exit_status (main lib0 args_no_height world3) \<noteq> Some (Inr 0) \<longleftrightarrow>
        \<not> recFile_good world3 \<or> \<not> shm_valid world3)"
proof -
  have "main lib0 args0 world_no_file =
      Some (Inr 0, state0\<lparr>clog := [Attached ''data'' 4 ''2019-01-07_090530.rec'']\<rparr>)"
    using main_no_file [of args0 world_no_file config0 lib0]
    by (simp add: count_args0 parse_args0 world_no_file_def world3_def config0_def)
  moreover have "main lib0 args_no_height world3 = Some (Inr 1, state0\<lparr>cerr := [Usage]\<rparr>)"
    by (simp add: main_missing_argument count_args_no_height)
  ultimately show ?thesis
    by (simp add: exit_status_def world_no_file_def world3_def)
qed

text \<open>
  C3, amended. The exit status is 1 when one of the required arguments \<^verbatim>\<open>--name\<close>,
  \<^verbatim>\<open>--width\<close>, \<^verbatim>\<open>--height\<close> is missing, and when the arguments are read and the
  region cannot be attached. It is 0 when the arguments are read, the region is attached,
  the recording file is opened and the loop ends, which it does as soon as its test finds
  the termination flag set or the region invalid at some pass \<open>n\<close>.
\<close>

theorem exit_status_by_design:
  "(0 = count a ''name'' \<or> 0 = count a ''width'' \<or> 0 = count a ''height'' \<longrightarrow>
      exit_status (main L a W) = Some (Inr 1)) \<and>
   (0 < count a ''name'' \<and> 0 < count a ''width'' \<and> 0 < count a ''height'' \<and>
    parse_arguments a (localtime W) = Inr c \<and> \<not> shm_valid W \<longrightarrow>
      exit_status (main L a W) = Some (Inr 1)) \<and>
   (0 < count a ''name'' \<and> 0 < count a ''width'' \<and> 0 < count a ''height'' \<and>
    parse_arguments a (localtime W) = Inr c \<and> shm_valid W \<and> recFile_good W \<and>
    \<not> continues (env W n) \<longrightarrow>
      exit_status (main L a W) = Some (Inr 0))"
proof (intro conjI impI)
  assume "0 = count a ''name'' \<or> 0 = count a ''width'' \<or> 0 = count a ''height''"
  then show "exit_status (main L a W) = Some (Inr 1)"
    by (simp add: main_missing_argument exit_status_def)
next
  assume "0 < count a ''name'' \<and> 0 < count a ''width'' \<and> 0 < count a ''height'' \<and>
    parse_arguments a (localtime W) = Inr c \<and> \<not> shm_valid W"
  then show "exit_status (main L a W) = Some (Inr 1)"
    by (simp add: main_not_attached exit_status_def)
next
  assume h: "0 < count a ''name'' \<and> 0 < count a ''width'' \<and> 0 < count a ''height'' \<and>
    parse_arguments a (localtime W) = Inr c \<and> shm_valid W \<and> recFile_good W \<and>
    \<not> continues (env W n)"
  then obtain s' where "capture_loop L c (shm_size W) (env W) 0
      (state0\<lparr>clog := [Attached (shm_name W) (shm_size W) (NAME_RECFILE c)]\<rparr>) = Some s'"
    using capture_loop_ends [of "env W" n L c "shm_size W"] by blast
  with h show "exit_status (main L a W) = Some (Inr 0)"
    by (simp add: main_recording exit_status_def)
qed

theorem exit_status_by_design_witness:
  "0 = count args_no_height ''height'' \<and>
   exit_status (main lib0 args_no_height world3) = Some (Inr 1) \<and>
   parse_arguments args0 (localtime world_no_shm) = Inr config0 \<and> \<not> shm_valid world_no_shm \<and>
   exit_status (main lib0 args0 world_no_shm) = Some (Inr 1) \<and>
   shm_valid world3 \<and> recFile_good world3 \<and> \<not> continues (env world3 3) \<and>
   exit_status (main lib0 args0 world3) = Some (Inr 0)"
proof -
  have p: "parse_arguments args0 (localtime world_no_shm) = Inr config0"
      "parse_arguments args0 (localtime world3) = Inr config0"
    by (simp_all add: world_no_shm_def world3_def parse_args0)
  have w: "\<not> shm_valid world_no_shm" "shm_valid world3" "recFile_good world3"
      "\<not> continues (env world3 3)"
    by (simp_all add: world_no_shm_def world3_def continues_env3)
  have c: "0 = count args_no_height ''height''"
    by (simp add: count_args_no_height)
  show ?thesis
    using exit_status_by_design [of args_no_height lib0 world3 config0 3]
      exit_status_by_design [of args0 lib0 world_no_shm config0 3]
      exit_status_by_design [of args0 lib0 world3 config0 3]
    by (simp add: p w c count_args0)
qed

text \<open>
  C4. After a pass, the variable \<open>sampleTimeStamp\<close> holds the notification time stamp of
  the region when the adapter reports one, and otherwise the clock reading taken right
  after the wait; the guarded block, run on the state that the pass leaves, writes an
  envelope whose \<open>sampleTimeStamp\<close> is that value.
\<close>

theorem sampleTimeStamp_of_pass:
  "sampleTimeStampVar (capture_iteration L c sz ob s) =
     (if fst (getTimeStamp ob) then snd (getTimeStamp ob) else wait_now ob) \<and>
   (\<exists>e. recFile (save_frame L c ob payload (capture_iteration L c sz ob s)) =
           recFile s @ serializeEnvelope L e \<and>
        sampleTimeStamp e =
          (if fst (getTimeStamp ob) then snd (getTimeStamp ob) else wait_now ob))"
proof -
  let ?ts = "if fst (getTimeStamp ob) then snd (getTimeStamp ob) else wait_now ob"
  let ?e = "make_envelope L c (make_ImageReading c payload) (sent_now ob) ?ts"
  have "recFile (save_frame L c ob payload (capture_iteration L c sz ob s)) =
      recFile s @ serializeEnvelope L ?e"
    by (simp add: save_frame_fields capture_iteration_fields)
  moreover have "sampleTimeStamp ?e = ?ts"
    by (simp add: make_envelope_def)
  ultimately show ?thesis
    by (simp only: capture_iteration_fields) blast
qed

theorem sampleTimeStamp_of_pass_witness:
  "sampleTimeStampVar (capture_iteration lib0 config0 4 (frame 1) state0) =
     \<lparr>seconds = 100, microseconds = 10000\<rparr> \<and>
   sampleTimeStampVar
     (capture_iteration lib0 config0 4 ((frame 1)\<lparr>getTimeStamp := (False, TimeStamp0)\<rparr>) state0) =
     \<lparr>seconds = 100, microseconds = 10020\<rparr>"
  using sampleTimeStamp_of_pass [of lib0 config0 4 "frame 1" state0 "[]"]
    sampleTimeStamp_of_pass
      [of lib0 config0 4 "(frame 1)\<lparr>getTimeStamp := (False, TimeStamp0)\<rparr>" state0 "[]"]
  by (simp add: frame_def)

text \<open>
  C5. The envelope that lines 122 to 138 build from a payload has every field set: the
  data type is the identifier of the image reading message, the serialized data is the
  proto encoding of the image reading with the format tag \<^verbatim>\<open>xyz\<close>, the configured
  width and height and the payload, \<open>sent\<close> is the clock reading of line 135,
  \<open>sampleTimeStamp\<close> is the captured sample time stamp and \<open>senderStamp\<close> is the
  configured identifier. The guarded block appends the serialization of that envelope.
\<close>

theorem envelope_fully_populated:
  "make_envelope L c (make_ImageReading c payload) now ts =
     \<lparr>dataType = ImageReading_ID L,
      serializedData =
        encodedData L \<lparr>fourcc = ''xyz'', width = WIDTH c, height = HEIGHT c, data = payload\<rparr>,
      sent = now, sampleTimeStamp = ts, senderStamp = ID c\<rparr> \<and>
   recFile (save_frame L c ob payload s) =
     recFile s @ serializeEnvelope L
       (make_envelope L c (make_ImageReading c payload) (sent_now ob) (sampleTimeStampVar s))"
  by (simp add: make_envelope_def make_ImageReading_def Envelope0_def ImageReading0_def
      save_frame_fields)

text \<open>
  C7. Along the actions of a pass, and along those of a pass followed by the guarded
  block, the copy of the region is directly followed by the release of the region lock,
  and no encoding and no access to the recording file happens while that lock is held.
\<close>

theorem region_lock_released_before_io:
  "(\<exists>acts. trace (capture_iteration L c sz ob s) = trace s @ acts \<and>
            released_after_copy acts \<and> lock_free_io False acts) \<and>
   (\<exists>acts. trace (save_frame L c ob payload (capture_iteration L c sz ob s)) = trace s @ acts \<and>
            released_after_copy acts \<and> lock_free_io False acts)"
proof
  show "\<exists>acts. trace (capture_iteration L c sz ob s) = trace s @ acts \<and>
            released_after_copy acts \<and> lock_free_io False acts"
    by (simp add: capture_iteration_fields)
next
  let ?acts = "[Wait, Now, Lock, GetTimeStamp, CopyData, Unlock] @
      [Encode, Now, LockRecFile, Serialize, Write, Flush] @
      (if VERBOSE c then [Now] else []) @ [UnlockRecFile]"
  have "trace (save_frame L c ob payload (capture_iteration L c sz ob s)) = trace s @ ?acts"
    by (simp add: save_frame_fields capture_iteration_fields)
  moreover have "released_after_copy ?acts" by simp
  moreover have "lock_free_io False ?acts" by simp
  ultimately show "\<exists>acts. trace (save_frame L c ob payload (capture_iteration L c sz ob s)) =
      trace s @ acts \<and> released_after_copy acts \<and> lock_free_io False acts"
    by blast
qed

theorem region_lock_released_before_io_witness:
  "released_after_copy (trace (capture_iteration lib0 config0 4 (frame 0) state0)) \<and>
   lock_free_io False (trace (capture_iteration lib0 config0 4 (frame 0) state0)) \<and>
   released_after_copy
     (trace (save_frame lib0 config0 (frame 0) ''aaaa''
        (capture_iteration lib0 config0 4 (frame 0) state0))) \<and>
   lock_free_io False
     (trace (save_frame lib0 config0 (frame 0) ''aaaa''
        (capture_iteration lib0 config0 4 (frame 0) state0)))"
  using region_lock_released_before_io [of lib0 config0 4 "frame 0" state0 "''aaaa''"]
  by (auto simp add: state0_def)

text \<open>
  C8. When the test of line 105 finds the termination flag set at pass \<open>i + n\<close>, after
  \<open>n\<close> passes that started, the loop returns: its result is the state after these \<open>n\<close>
  complete passes (and the appends of the bus callback), every started pass has run to
  its end, and no further wait has begun.
\<close>

theorem termination_flag_tested_first:
  assumes "\<And>j. j < n \<Longrightarrow> continues (obs (i + j))" and "isTerminated (obs (i + n))"
  shows "\<exists>s'. capture_loop L c sz obs i s = Some s' \<and>
           s' = od4_deliver L c (bus (obs (i + n))) (passes L c sz obs i n s) \<and>
           trace s' =
             trace s @ concat (replicate n [Wait, Now, Lock, GetTimeStamp, CopyData, Unlock]) \<and>
           count_list (trace s') Wait = count_list (trace s) Wait + n"
proof -
  from assms(2) have "\<not> continues (obs (i + n))" by (simp add: continues_def)
  with assms(1) have "capture_loop L c sz obs i s =
      Some (od4_deliver L c (bus (obs (i + n))) (passes L c sz obs i n s))"
    by (rule capture_loop_returns)
  moreover have "count_list (concat (replicate n [Wait, Now, Lock, GetTimeStamp, CopyData, Unlock]))
      Wait = n"
    by (induction n) simp_all
  ultimately show ?thesis
    by (simp add: od4_deliver_fields passes_fields)
qed

theorem termination_flag_tested_first_witness:
  "continues (env3 0) \<and> continues (env3 1) \<and> continues (env3 2) \<and> isTerminated (env3 3) \<and>
   (\<exists>s'. capture_loop lib0 config0 4 env3 0 state0 = Some s' \<and>
      trace s' = concat (replicate 3 [Wait, Now, Lock, GetTimeStamp, CopyData, Unlock]) \<and>
      count_list (trace s') Wait = 3)"
proof -
  have t: "isTerminated (env3 (0 + 3))" by (simp add: env3_def stop_def)
  have k: "\<And>j. j < 3 \<Longrightarrow> continues (env3 (0 + j))" by (simp add: continues_env3)
  show ?thesis
    using termination_flag_tested_first [of 3 env3 0 lib0 config0 4 state0, OF k t] t
    by (simp add: continues_env3 state0_def eval_nat_numeral)
qed

text \<open>
  C9. The payload copied on line 118 has the length of the region, whatever the
  configured width and height are; the image reading carries that payload unchanged,
  and the width and height only fill its two fields of that name.
\<close>

theorem payload_length_is_region_size:
  "length (fst (snapshot sz ob s)) = sz \<and>
   data (make_ImageReading c (fst (snapshot sz ob s))) = fst (snapshot sz ob s) \<and>
   length (data (make_ImageReading c (fst (snapshot sz ob s)))) = sz \<and>
   width (make_ImageReading c payload) = WIDTH c \<and>
   height (make_ImageReading c payload) = HEIGHT c \<and>
   data (make_ImageReading c payload) = payload"
  by (simp add: snapshot_fields make_ImageReading_def)

text \<open>
  C10. Two runs that differ only in the presence of \<^verbatim>\<open>--verbose\<close> and meet the same
  environment record the same bytes (and both return, or neither does); the guarded
  block, too, appends the same bytes with and without the flag.
\<close>

theorem verbose_leaves_recording_unchanged:
  "recorded (main L (a(''verbose'' \<mapsto> v)) W) = recorded (main L (a(''verbose'' := None)) W) \<and>
   recFile (save_frame L (c\<lparr>VERBOSE := True\<rparr>) ob payload s) =
     recFile (save_frame L (c\<lparr>VERBOSE := False\<rparr>) ob payload s)"
proof
  show "recFile (save_frame L (c\<lparr>VERBOSE := True\<rparr>) ob payload s) =
     recFile (save_frame L (c\<lparr>VERBOSE := False\<rparr>) ob payload s)"
    by (simp add: save_frame_verbose)
next
  show "recorded (main L (a(''verbose'' \<mapsto> v)) W) = recorded (main L (a(''verbose'' := None)) W)"
  proof (cases "parse_arguments a (localtime W)")
    case (Inl e)
    then show ?thesis
      by (simp add: main_def arg_verbose parse_arguments_verbose recorded_def)
  next
    case (Inr c0)
    have loop: "\<And>s0. map_option recFile
          (capture_loop L (c0\<lparr>VERBOSE := True\<rparr>) (shm_size W) (env W) 0 s0) =
        map_option recFile
          (capture_loop L (c0\<lparr>VERBOSE := False\<rparr>) (shm_size W) (env W) 0 s0)"
      using capture_loop_verbose [where c = "c0\<lparr>VERBOSE := False\<rparr>" and b = True]
      by simp
    show ?thesis
      using loop
      by (simp add: main_def arg_verbose parse_arguments_verbose recorded_def Inr
          Let_def recorded_after_loop)
  qed
qed

end
